theory Spec2Isabelle
  imports Complex_Main "HOL-Library.Word"
begin

section \<open>JavaScript strings\<close>

text \<open>
  A JavaScript string is a sequence of UTF-16 code units. File contents are what
  \<^verbatim>\<open>fs.readFileSync(path, 'utf8')\<close> returns and \<^verbatim>\<open>fs.writeFileSync\<close> takes: the decoded
  text of the file. A literal of the source is written \<open>js ''...''\<close>; literals outside
  ASCII are given by their code units.
\<close>

type_synonym jschar = "16 word"
type_synonym jsstring = "jschar list"

definition js :: "string \<Rightarrow> jsstring" where
  "js s = map of_char s"

text \<open>
  The class \<^verbatim>\<open>\s\<close> of a regular expression and the characters removed by
  \<^verbatim>\<open>String.prototype.trim\<close> are the same set: WhiteSpace and LineTerminator of ECMAScript.
\<close>

definition isSpace :: "jschar \<Rightarrow> bool" where
  "isSpace c \<longleftrightarrow>
     c \<in> {0x09, 0x0A, 0x0B, 0x0C, 0x0D, 0x20, 0xA0, 0x1680, 0x2028, 0x2029,
          0x202F, 0x205F, 0x3000, 0xFEFF}
     \<or> (0x2000 \<le> c \<and> c \<le> 0x200A)"

text \<open>\<^verbatim>\<open>\w\<close> is \<^verbatim>\<open>[A-Za-z0-9_]\<close>.\<close>

definition isWord :: "jschar \<Rightarrow> bool" where
  "isWord c \<longleftrightarrow>
     (0x41 \<le> c \<and> c \<le> 0x5A) \<or> (0x61 \<le> c \<and> c \<le> 0x7A)
     \<or> (0x30 \<le> c \<and> c \<le> 0x39) \<or> c = 0x5F"

text \<open>\<^verbatim>\<open>["']\<close>\<close>

definition isQuote :: "jschar \<Rightarrow> bool" where
  "isQuote c \<longleftrightarrow> c = 0x22 \<or> c = 0x27"

definition startsWith :: "jsstring \<Rightarrow> jsstring \<Rightarrow> bool" where
  "startsWith s p \<longleftrightarrow> take (length p) s = p"

definition endsWith :: "jsstring \<Rightarrow> jsstring \<Rightarrow> bool" where
  "endsWith s p \<longleftrightarrow> length p \<le> length s \<and> drop (length s - length p) s = p"

definition trim :: "jsstring \<Rightarrow> jsstring" where
  "trim s = rev (dropWhile isSpace (rev (dropWhile isSpace s)))"

text \<open>\<^verbatim>\<open>s.substring(0, n)\<close> and \<^verbatim>\<open>s.slice(n)\<close> for \<open>0 \<le> n\<close>.\<close>

definition substring0 :: "nat \<Rightarrow> jsstring \<Rightarrow> jsstring" where
  "substring0 n s = take n s"

definition slice :: "nat \<Rightarrow> jsstring \<Rightarrow> jsstring" where
  "slice n s = drop n s"

text \<open>\<^verbatim>\<open>s.split('\n')[0]\<close>: \<^verbatim>\<open>split\<close> always yields at least one piece, and the
  first one is the text before the first line feed.\<close>

definition firstLineOf :: "jsstring \<Rightarrow> jsstring" where
  "firstLineOf s = takeWhile (\<lambda>c. c \<noteq> 0x0A) s"

text \<open>\<^verbatim>\<open>s.replace(pat, rep)\<close> with a string pattern: only the first occurrence of
  \<open>pat\<close> is replaced, wherever it is.\<close>

fun replaceString :: "jsstring \<Rightarrow> jsstring \<Rightarrow> jsstring \<Rightarrow> jsstring" where
  "replaceString pat rep [] = (if pat = [] then rep else [])"
| "replaceString pat rep (c # s) =
     (if startsWith (c # s) pat then rep @ drop (length pat) (c # s)
      else c # replaceString pat rep s)"

text \<open>\<^verbatim>\<open>s.includes(pat)\<close>\<close>

fun str_includes :: "jsstring \<Rightarrow> jsstring \<Rightarrow> bool" where
  "str_includes [] pat \<longleftrightarrow> pat = []"
| "str_includes (c # s) pat \<longleftrightarrow> startsWith (c # s) pat \<or> str_includes s pat"

text \<open>\<^verbatim>\<open>x || d\<close> on a string or a number that may be missing: \<^verbatim>\<open>undefined\<close>,
  \<^verbatim>\<open>null\<close>, the empty string and zero are falsy.\<close>

definition strOr :: "jsstring option \<Rightarrow> jsstring \<Rightarrow> jsstring" where
  "strOr x d = (case x of None \<Rightarrow> d | Some s \<Rightarrow> if s = [] then d else s)"

definition numOr :: "int option \<Rightarrow> int \<Rightarrow> int" where
  "numOr x d = (case x of None \<Rightarrow> d | Some n \<Rightarrow> if n = 0 then d else n)"

section \<open>Task title (processInbox, lines 152-157)\<close>

text \<open>
  \<^verbatim>\<open>
  let title = file.replace('.md', '');
  const firstLine = content.split('\n')[0];
  if (firstLine.startsWith('# ')) title = firstLine.slice(2).trim();
  else if (firstLine.startsWith('## ')) title = firstLine.slice(3).trim();
  else if (firstLine.trim()) title = firstLine.trim().substring(0, 50);
  \<close>
\<close>

definition processInbox_title :: "jsstring \<Rightarrow> jsstring \<Rightarrow> jsstring" where
  "processInbox_title file content =
     (let firstLine = firstLineOf content in
      if startsWith firstLine (js ''# '') then trim (slice 2 firstLine)
      else if startsWith firstLine (js ''## '') then trim (slice 3 firstLine)
      else if trim firstLine \<noteq> [] then substring0 50 (trim firstLine)
      else replaceString (js ''.md'') [] file)"

section \<open>Worker registry reader (parseSessionsFile, lines 296-331)\<close>

text \<open>
  A record of \<^verbatim>\<open>sessions.json\<close>. Every field may be missing; a field that is present
  has the type the code expects (a string or a number).
\<close>

record session =
  session_key :: "jsstring option"
  session_sessionId :: "jsstring option"
  session_label :: "jsstring option"
  session_model :: "jsstring option"
  session_modelProvider :: "jsstring option"
  session_updatedAt :: "int option"
  session_totalTokens :: "int option"
  session_inputTokens :: "int option"
  session_outputTokens :: "int option"
  session_sessionFile :: "jsstring option"

record agent =
  agent_key :: "jsstring option"
  agent_label :: jsstring
  agent_model :: jsstring
  agent_status :: jsstring
  agent_ageMs :: int
  agent_tokens :: int
  agent_sessionId :: "jsstring option"
  agent_updatedAt :: "int option"
  agent_sessionFile :: "jsstring option"

text \<open>The table \<^verbatim>\<open>labelMapping\<close>, by its own keys (a label that names a member
  inherited from \<^verbatim>\<open>Object.prototype\<close> is outside this model).\<close>

definition labelMapping :: "jsstring \<Rightarrow> jsstring option" where
  "labelMapping l =
     (if l = js ''coding_team'' then Some [0x7A0B, 0x5F0F, 0x7D44]
      else if l = js ''dev_team'' then Some [0x958B, 0x767C, 0x7D44]
      else if l = js ''handyman'' then Some [0x96DC, 0x5DE5]
      else None)"

definition mainLabel :: jsstring where
  "mainLabel = [0x7F8A, 0x7F8A]"

definition mainSessionId :: jsstring where
  "mainSessionId = js ''5907ddda-6411-4999-9578-7e841f351d63''"

definition mainKey :: jsstring where
  "mainKey = js ''agent:main:main''"

text \<open>\<^verbatim>\<open>session.totalTokens || (session.inputTokens + session.outputTokens) || 0\<close>:
  a sum with a missing operand is \<^verbatim>\<open>NaN\<close>, which is falsy.\<close>

definition sessionTokens :: "session \<Rightarrow> int" where
  "sessionTokens s =
     numOr (session_totalTokens s)
       (numOr (case (session_inputTokens s, session_outputTokens s) of
                 (Some i, Some t) \<Rightarrow> Some (i + t) | _ \<Rightarrow> None) 0)"

text \<open>
  The callback of \<^verbatim>\<open>Object.values(data).forEach\<close>, with \<open>now\<close> the value of
  \<^verbatim>\<open>Date.now()\<close> read once before the loop:
  \<^verbatim>\<open>
  const ageMs = now - (session.updatedAt || 0);
  const isActive = ageMs < 300000;
  let label = session.label || 'Unknown';
  if (labelMapping[label]) { label = labelMapping[label]; }
  else if (session.sessionId === '5907...' || session.key === 'agent:main:main') { label = mainLabel; }
  agents.push({ key: session.sessionId, label: label,
    model: session.model || session.modelProvider || 'unknown',
    status: isActive ? 'active' : 'idle', ageMs: ageMs, tokens: ..., ... });
  \<close>
\<close>

definition parseSessionsFile_forEach :: "int \<Rightarrow> session \<Rightarrow> agent" where
  "parseSessionsFile_forEach now s =
     (let ageMs = now - numOr (session_updatedAt s) 0;
          isActive = ageMs < 300000;
          label0 = strOr (session_label s) (js ''Unknown'');
          label = (case labelMapping label0 of
                     Some l \<Rightarrow> l
                   | None \<Rightarrow> if session_sessionId s = Some mainSessionId
                                \<or> session_key s = Some mainKey
                             then mainLabel else label0)
      in \<lparr> agent_key = session_sessionId s,
           agent_label = label,
           agent_model = strOr (session_model s) (strOr (session_modelProvider s) (js ''unknown'')),
           agent_status = (if isActive then js ''active'' else js ''idle''),
           agent_ageMs = ageMs,
           agent_tokens = sessionTokens s,
           agent_sessionId = session_sessionId s,
           agent_updatedAt = session_updatedAt s,
           agent_sessionFile = session_sessionFile s \<rparr>)"

text \<open>The array \<open>agents\<close> after the \<^verbatim>\<open>forEach\<close>. The rest of the function renames
  duplicate labels and reorders; it reads, but never changes, \<open>status\<close> and \<open>ageMs\<close>.\<close>

definition parseSessionsFile_agents :: "int \<Rightarrow> session list \<Rightarrow> agent list" where
  "parseSessionsFile_agents now sessions = map (parseSessionsFile_forEach now) sessions"

section \<open>Regular expressions\<close>

text \<open>
  A pattern is a function from the text at the current position to the list of all ways
  it can match there, in the order in which a backtracking matcher tries them (a greedy
  quantifier tries the longest repetition first). Each way is the text left after the
  match. Sequencing is \<open>List.bind\<close>; the first element of the resulting list is the
  match that \<^verbatim>\<open>RegExp.prototype.exec\<close> reports at that position.
\<close>

definition re_lit :: "jsstring \<Rightarrow> jsstring \<Rightarrow> jsstring list" where
  "re_lit p s = (if startsWith s p then [drop (length p) s] else [])"

text \<open>\<^verbatim>\<open>C*\<close> for a character class \<open>C\<close>\<close>

fun re_star :: "(jschar \<Rightarrow> bool) \<Rightarrow> jsstring \<Rightarrow> jsstring list" where
  "re_star C [] = [[]]"
| "re_star C (c # s) = (if C c then re_star C s @ [c # s] else [c # s])"

text \<open>\<^verbatim>\<open>C?\<close>\<close>

definition re_opt :: "(jschar \<Rightarrow> bool) \<Rightarrow> jsstring \<Rightarrow> jsstring list" where
  "re_opt C s = (case s of [] \<Rightarrow> [s] | c # t \<Rightarrow> if C c then [t, s] else [s])"

text \<open>\<^verbatim>\<open>(C+)\<close>: each way is the captured text and the text left.\<close>

fun re_plus_group :: "(jschar \<Rightarrow> bool) \<Rightarrow> jsstring \<Rightarrow> (jsstring \<times> jsstring) list" where
  "re_plus_group C [] = []"
| "re_plus_group C (c # s) =
     (if C c then map (\<lambda>(g, r). (c # g, r)) (re_plus_group C s) @ [([c], s)] else [])"

text \<open>
  \<^verbatim>\<open>/status:\s*["']?(\w+)["']?/\<close> and \<^verbatim>\<open>/type:\s*["']?(\w+)["']?/\<close>, for the key
  \<open>''status:''\<close> or \<open>''type:''\<close>: the captured group and the text after the match.
\<close>

definition fieldRegex :: "jsstring \<Rightarrow> jsstring \<Rightarrow> (jsstring \<times> jsstring) list" where
  "fieldRegex key s =
     List.bind (re_lit key s) (\<lambda>r0.
     List.bind (re_star isSpace r0) (\<lambda>r1.
     List.bind (re_opt isQuote r1) (\<lambda>r2.
     List.bind (re_plus_group isWord r2) (\<lambda>(g, r3).
     List.bind (re_opt isQuote r3) (\<lambda>r4. [(g, r4)])))))"

text \<open>\<^verbatim>\<open>/status:\s*["']?pending["']?/\<close>: the text after the match.\<close>

definition pendingRegex :: "jsstring \<Rightarrow> jsstring list" where
  "pendingRegex s =
     List.bind (re_lit (js ''status:'') s) (\<lambda>r0.
     List.bind (re_star isSpace r0) (\<lambda>r1.
     List.bind (re_opt isQuote r1) (\<lambda>r2.
     List.bind (re_lit (js ''pending'') r2) (\<lambda>r3.
     re_opt isQuote r3))))"

text \<open>
  The search of a pattern without the \<^verbatim>\<open>g\<close> flag: the leftmost position at which
  the pattern matches, with the text before the match and the first way of matching
  there. The last position tried is the end of the text.
\<close>

fun re_exec :: "(jsstring \<Rightarrow> 'a list) \<Rightarrow> jsstring \<Rightarrow> (jsstring \<times> 'a) option" where
  "re_exec re [] = (case re [] of [] \<Rightarrow> None | m # _ \<Rightarrow> Some ([], m))"
| "re_exec re (c # s) =
     (case re (c # s) of
        m # _ \<Rightarrow> Some ([], m)
      | [] \<Rightarrow> (case re_exec re s of None \<Rightarrow> None | Some (pre, m) \<Rightarrow> Some (c # pre, m)))"

text \<open>\<^verbatim>\<open>content.match(re)\<close> followed by \<^verbatim>\<open>m ? m[1] : d\<close>\<close>

definition matchGroup1 :: "(jsstring \<Rightarrow> (jsstring \<times> jsstring) list) \<Rightarrow> jsstring \<Rightarrow> jsstring option" where
  "matchGroup1 re content = (case re_exec re content of None \<Rightarrow> None | Some (pre, g, r) \<Rightarrow> Some g)"

text \<open>\<^verbatim>\<open>content.replace(re, rep)\<close> for a replacement text without \<^verbatim>\<open>$\<close>: the first
  match is replaced; without a match the text is returned as it is.\<close>

definition replaceRegex :: "(jsstring \<Rightarrow> jsstring list) \<Rightarrow> jsstring \<Rightarrow> jsstring \<Rightarrow> jsstring" where
  "replaceRegex re rep content =
     (case re_exec re content of None \<Rightarrow> content | Some (pre, r) \<Rightarrow> pre @ rep @ r)"

section \<open>The file system, the clock and the child processes\<close>

text \<open>
  An entry of the inbox directory. \<open>contents = None\<close> is an entry that
  \<^verbatim>\<open>readFileSync\<close> cannot read (a directory, a file without read permission);
  \<open>writable = False\<close> is one that \<^verbatim>\<open>writeFileSync\<close> cannot write.
\<close>

record inode =
  mtimeMs :: rat
  contents :: "jsstring option"
  writable :: bool

datatype fs_error = ENOENT | EISDIR | EACCES

text \<open>\<^verbatim>\<open>fs.existsSync(INBOX_PATH)\<close> and \<^verbatim>\<open>fs.readdirSync(INBOX_PATH)\<close>: the directory is
  missing, or cannot be listed (\<^verbatim>\<open>readdirSync\<close> throws), or has the listed names.\<close>

datatype inbox_dir = Missing | Unlistable | Listing "jsstring list"

text \<open>
  A request to \<^verbatim>\<open>child_process.exec\<close>. The command line is a fixed text around
  \<open>targetLabel\<close>, \<open>targetModel\<close> and \<open>filePath\<close>; the callback closes over \<open>filePath\<close> and
  \<open>content\<close>, the text read before the dispatch.
\<close>

record spawn =
  spawn_label :: jsstring
  spawn_model :: jsstring
  spawn_file :: jsstring
  spawn_content :: jsstring

datatype effect = WriteFile jsstring jsstring | Exec spawn

text \<open>
  The world seen by one run. Files are named relative to \<^verbatim>\<open>INBOX_PATH\<close>
  (\<^verbatim>\<open>path.join(INBOX_PATH, file)\<close> is one-to-one on the names of a listing). The system
  clock is the sequence of its readings: each \<^verbatim>\<open>Date.now()\<close> and each time stamp of a
  written file takes the next one. \<open>effects\<close> is the log of writes and \<^verbatim>\<open>exec\<close> requests
  in program order.
\<close>

record world =
  inbox :: inbox_dir
  files :: "jsstring \<Rightarrow> inode option"
  clock :: "nat \<Rightarrow> int"
  ticks :: nat
  effects :: "effect list"

definition Date_now :: "world \<Rightarrow> int \<times> world" where
  "Date_now w = (clock w (ticks w), w\<lparr>ticks := Suc (ticks w)\<rparr>)"

definition statSync :: "jsstring \<Rightarrow> world \<Rightarrow> fs_error + inode" where
  "statSync path w = (case files w path of None \<Rightarrow> Inl ENOENT | Some nd \<Rightarrow> Inr nd)"

definition readFileSync :: "jsstring \<Rightarrow> world \<Rightarrow> fs_error + jsstring" where
  "readFileSync path w =
     (case files w path of
        None \<Rightarrow> Inl ENOENT
      | Some nd \<Rightarrow> (case contents nd of None \<Rightarrow> Inl EISDIR | Some c \<Rightarrow> Inr c))"

text \<open>\<^verbatim>\<open>fs.writeFileSync(path, data)\<close> replaces the whole content, or creates the file.\<close>

definition writeFileSync :: "jsstring \<Rightarrow> jsstring \<Rightarrow> world \<Rightarrow> fs_error + world" where
  "writeFileSync path data w =
     (let stamp = of_int (clock w (ticks w));
          written = (\<lambda>nd. w\<lparr> files := (files w)(path \<mapsto> nd),
                            ticks := Suc (ticks w),
                            effects := effects w @ [WriteFile path data] \<rparr>)
      in case files w path of
           None \<Rightarrow> Inr (written \<lparr> mtimeMs = stamp, contents = Some data, writable = True \<rparr>)
         | Some nd \<Rightarrow>
             if contents nd = None then Inl EISDIR
             else if \<not> writable nd then Inl EACCES
             else Inr (written (nd\<lparr> mtimeMs := stamp, contents := Some data \<rparr>)))"

definition exec :: "spawn \<Rightarrow> world \<Rightarrow> world" where
  "exec req w = w\<lparr> effects := effects w @ [Exec req] \<rparr>"


section \<open>Inbox router (processInbox)\<close>

record task =
  task_id :: jsstring
  task_title :: jsstring
  task_status :: jsstring
  task_updatedAt :: int

text \<open>
  \<^verbatim>\<open>
  let targetLabel = 'handyman';
  let targetModel = 'google-antigravity/gemini-3-pro-high';
  if (type === 'coding') {
      targetLabel = 'tech_team';
      targetModel = 'google-antigravity/claude-opus-4-5-thinking';
  }
  \<close>
\<close>

definition route :: "jsstring \<Rightarrow> jsstring \<times> jsstring" where
  "route type =
     (if type = js ''coding''
      then (js ''tech_team'', js ''google-antigravity/claude-opus-4-5-thinking'')
      else (js ''handyman'', js ''google-antigravity/gemini-3-pro-high''))"

text \<open>\<^verbatim>\<open>agents.some(a => a.label === targetLabel && a.status === 'active')\<close>\<close>

definition isBusy :: "agent list \<Rightarrow> jsstring \<Rightarrow> bool" where
  "isBusy agents targetLabel =
     list_ex (\<lambda>a. agent_label a = targetLabel \<and> agent_status a = js ''active'') agents"

text \<open>\<^verbatim>\<open>const status = statusMatch ? statusMatch[1] : 'unknown'\<close> and
  \<^verbatim>\<open>const type = typeMatch ? typeMatch[1] : 'general'\<close>\<close>

definition statusOf :: "jsstring \<Rightarrow> jsstring" where
  "statusOf content =
     (case matchGroup1 (fieldRegex (js ''status:'')) content of Some g \<Rightarrow> g | None \<Rightarrow> js ''unknown'')"

definition typeOf :: "jsstring \<Rightarrow> jsstring" where
  "typeOf content =
     (case matchGroup1 (fieldRegex (js ''type:'')) content of Some g \<Rightarrow> g | None \<Rightarrow> js ''general'')"

text \<open>\<^verbatim>\<open>const newContent = content.replace(/status:\s*["']?pending["']?/, 'status: "dispatched"')\<close>\<close>

definition newContent :: "jsstring \<Rightarrow> jsstring" where
  "newContent content = replaceRegex pendingRegex (js ''status: \"dispatched\"'') content"

text \<open>
  The body of \<^verbatim>\<open>for (const file of files)\<close>. It either throws (\<open>Inl\<close>), before any
  effect of this file, or goes on to the next file with the record it pushed, if any.
  The three calls that can throw are \<^verbatim>\<open>statSync\<close>, \<^verbatim>\<open>readFileSync\<close> and
  \<^verbatim>\<open>writeFileSync\<close>; neither the two matches nor the title can.
\<close>

definition processInbox_file :: "agent list \<Rightarrow> jsstring \<Rightarrow> world \<Rightarrow> fs_error + (task option \<times> world)" where
  "processInbox_file agents file w =
     (if \<not> endsWith file (js ''.md'') then Inr (None, w)
      else case statSync file w of
        Inl e \<Rightarrow> Inl e
      | Inr stat \<Rightarrow>
       (case readFileSync file w of
          Inl e \<Rightarrow> Inl e
        | Inr content \<Rightarrow>
           (let status = statusOf content;
                title = processInbox_title file content;
                (targetLabel, targetModel) = route (typeOf content);
                listed = \<lparr> task_id = js ''inbox-'' @ file, task_title = title,
                           task_status = status, task_updatedAt = \<lfloor>mtimeMs stat\<rfloor> \<rparr>
            in if status = js ''pending'' \<and> \<not> isBusy agents targetLabel then
                 (case writeFileSync file (newContent content) w of
                    Inl e \<Rightarrow> Inl e
                  | Inr w1 \<Rightarrow>
                     (let w2 = exec \<lparr> spawn_label = targetLabel, spawn_model = targetModel,
                                       spawn_file = file, spawn_content = content \<rparr> w1;
                          (now, w3) = Date_now w2
                      in Inr (Some \<lparr> task_id = js ''inbox-'' @ file, task_title = title,
                                     task_status = js ''dispatched'', task_updatedAt = now \<rparr>, w3)))
               else Inr (Some listed, w))))"

text \<open>
  The loop over the listing, with the array \<open>tasks\<close> built so far. It stops at the first
  file whose body throws and keeps what was pushed before.
\<close>

fun processInbox_loop :: "agent list \<Rightarrow> jsstring list \<Rightarrow> task list \<Rightarrow> world \<Rightarrow> fs_error option \<times> task list \<times> world" where
  "processInbox_loop agents [] tasks w = (None, tasks, w)"
| "processInbox_loop agents (file # rest) tasks w =
     (case processInbox_file agents file w of
        Inl e \<Rightarrow> (Some e, tasks, w)
      | Inr (pushed, w') \<Rightarrow>
          processInbox_loop agents rest (tasks @ (case pushed of None \<Rightarrow> [] | Some t \<Rightarrow> [t])) w')"

text \<open>\<^verbatim>\<open>Array.prototype.sort(cmp)\<close> is stable: insertion from the left, each element
  placed before the first one it is smaller than. For a comparator that is a consistent
  ordering this is the one stable result; for any other comparator ECMAScript leaves
  the order to the implementation, and nothing below depends on it.\<close>

fun sort_insert :: "('a \<Rightarrow> 'a \<Rightarrow> int) \<Rightarrow> 'a \<Rightarrow> 'a list \<Rightarrow> 'a list" where
  "sort_insert cmp x [] = [x]"
| "sort_insert cmp x (y # ys) = (if cmp x y < 0 then x # y # ys else y # sort_insert cmp x ys)"

definition array_sort :: "('a \<Rightarrow> 'a \<Rightarrow> int) \<Rightarrow> 'a list \<Rightarrow> 'a list" where
  "array_sort cmp xs = foldl (\<lambda>acc x. sort_insert cmp x acc) [] xs"

text \<open>
  \<^verbatim>\<open>
  function processInbox(agents) {
    const tasks = [];
    try {
      if (!fs.existsSync(INBOX_PATH)) return tasks;
      const files = fs.readdirSync(INBOX_PATH);
      for (const file of files) { ... }
      tasks.sort((a, b) => a.updatedAt - b.updatedAt);
    } catch (err) { console.error('processInbox error:', err.message); }
    return tasks;
  }
  \<close>
  The one \<^verbatim>\<open>try\<close> block holds the whole scan and the sort: an exception thrown for one
  file ends the loop and skips the sort.
\<close>

definition processInbox :: "agent list \<Rightarrow> world \<Rightarrow> task list \<times> world" where
  "processInbox agents w =
     (case inbox w of
        Missing \<Rightarrow> ([], w)
      | Unlistable \<Rightarrow> ([], w)
      | Listing names \<Rightarrow>
         (case processInbox_loop agents names [] w of
            (None, tasks, w') \<Rightarrow> (array_sort (\<lambda>a b. task_updatedAt a - task_updatedAt b) tasks, w')
          | (Some e, tasks, w') \<Rightarrow> (tasks, w')))"

text \<open>The file an effect is about, and the effects logged between two worlds.\<close>

fun effect_file :: "effect \<Rightarrow> jsstring" where
  "effect_file (WriteFile path data) = path"
| "effect_file (Exec req) = spawn_file req"

definition newEffects :: "world \<Rightarrow> world \<Rightarrow> effect list" where
  "newEffects w w' = drop (length (effects w)) (effects w')"

section \<open>Session tasks (getTasks) and the merge in updateStatus\<close>

record session_task =
  st_id :: "jsstring option"
  st_title :: jsstring
  st_status :: jsstring
  st_updatedAt :: "int option"

text \<open>
  \<^verbatim>\<open>String.prototype.toLowerCase\<close> on the capital letters of Basic Latin and on the
  Kelvin sign, the only code units whose lower case is a Basic Latin letter. The other
  code units are kept: their lower case is themselves or holds a code unit outside
  Basic Latin, so a comparison of the result with an ASCII word comes out the same.
\<close>

definition lowerChar :: "jschar \<Rightarrow> jschar" where
  "lowerChar c = (if 0x41 \<le> c \<and> c \<le> 0x5A then c + 0x20 else if c = 0x212A then 0x6B else c)"

definition toLowerCase :: "jsstring \<Rightarrow> jsstring" where
  "toLowerCase s = map lowerChar s"

text \<open>
  \<^verbatim>\<open>
  if (title === label) {
    if (label === 'coding_team') title = ...;
    else if (label === 'dev_team') title = ...;
    else if (label === 'handyman') title = ...;
    else if (label.toLowerCase() === 'unknown') {
        title = session.sessionId.includes('subagent') ? ... : ...;
    }
  }
  \<close>
  \<^verbatim>\<open>session.sessionId.includes\<close> throws a TypeError (\<open>Inl ()\<close>) when the record has no
  \<open>sessionId\<close>.
\<close>

definition fallbackTitle :: "jsstring \<Rightarrow> jsstring \<Rightarrow> jsstring option \<Rightarrow> unit + jsstring" where
  "fallbackTitle title label sessionId =
     (if title = label then
        if label = js ''coding_team'' then Inr [0x7A0B, 0x5F0F, 0x7D44, 0x4EFB, 0x52D9]
        else if label = js ''dev_team'' then Inr [0x958B, 0x767C, 0x7D44, 0x4EFB, 0x52D9]
        else if label = js ''handyman'' then Inr [0x96DC, 0x5DE5, 0x4EFB, 0x52D9]
        else if toLowerCase label = js ''unknown'' then
          (case sessionId of
             None \<Rightarrow> Inl ()
           | Some sid \<Rightarrow> Inr (if str_includes sid (js ''subagent'')
                              then [0x5B50, 0x4EFB, 0x52D9]
                              else [0x7CFB, 0x7D71, 0x7DAD, 0x8B77]))
        else Inr title
      else Inr title)"

text \<open>\<^verbatim>\<open>now - session.updatedAt > d\<close>: with \<open>updatedAt\<close> missing the difference is
  \<^verbatim>\<open>NaN\<close> and the comparison is false.\<close>

definition olderThan :: "int \<Rightarrow> session \<Rightarrow> int \<Rightarrow> bool" where
  "olderThan now s d = (case session_updatedAt s of Some u \<Rightarrow> now - u > d | None \<Rightarrow> False)"

definition isDone :: "int \<Rightarrow> session \<Rightarrow> bool" where
  "isDone now s \<longleftrightarrow>
     (case session_totalTokens s of Some t \<Rightarrow> t > 0 | None \<Rightarrow> False) \<and> olderThan now s 120000"

datatype getTasks_step = Continue | Push session_task | Return | Throw

text \<open>
  The body of \<^verbatim>\<open>for (const session of sessions)\<close>. \<open>logTitle\<close> is the result of
  \<^verbatim>\<open>await getTaskTitleFromLog(session.sessionFile)\<close>, which reads the transcript of the
  session and yields \<^verbatim>\<open>null\<close> or a text and never throws.
  \<^verbatim>\<open>
  const isDone = session.totalTokens > 0 && (now - session.updatedAt > 120000);
  if (isDone && (now - session.updatedAt > 3600000)) continue;
  const status = isDone ? 'done' : 'running';
  let label = session.label || 'Unknown';
  let title = label;
  if (session.sessionFile) {
      const realTitle = await getTaskTitleFromLog(session.sessionFile);
      if (realTitle) { title = realTitle; }
  }
  if (title === label) { ... }
  if (session.key === 'agent:main:main') return;
  tasks.push({ id: session.sessionId, title: title, status: status, updatedAt: session.updatedAt });
  \<close>
\<close>

definition getTasks_session :: "int \<Rightarrow> (jsstring \<Rightarrow> jsstring option) \<Rightarrow> session \<Rightarrow> getTasks_step" where
  "getTasks_session now logTitle s =
     (if isDone now s \<and> olderThan now s 3600000 then Continue
      else
        let status = (if isDone now s then js ''done'' else js ''running'');
            label = strOr (session_label s) (js ''Unknown'');
            title = (case session_sessionFile s of
                       None \<Rightarrow> label
                     | Some f \<Rightarrow> if f = [] then label else strOr (logTitle f) label)
        in case fallbackTitle title label (session_sessionId s) of
             Inl _ \<Rightarrow> Throw
           | Inr title' \<Rightarrow>
               if session_key s = Some mainKey then Return
               else Push \<lparr> st_id = session_sessionId s, st_title = title',
                           st_status = status, st_updatedAt = session_updatedAt s \<rparr>)"

datatype loop_exit = Completed "session_task list" | Returned | Thrown

fun getTasks_loop :: "int \<Rightarrow> (jsstring \<Rightarrow> jsstring option) \<Rightarrow> session list \<Rightarrow> session_task list \<Rightarrow> loop_exit" where
  "getTasks_loop now logTitle [] tasks = Completed tasks"
| "getTasks_loop now logTitle (s # rest) tasks =
     (case getTasks_session now logTitle s of
        Continue \<Rightarrow> getTasks_loop now logTitle rest tasks
      | Push t \<Rightarrow> getTasks_loop now logTitle rest (tasks @ [t])
      | Return \<Rightarrow> Returned
      | Throw \<Rightarrow> Thrown)"

text \<open>\<^verbatim>\<open>(a, b) => b.updatedAt - a.updatedAt\<close>; a \<^verbatim>\<open>NaN\<close> from a missing \<open>updatedAt\<close>
  counts as zero in \<^verbatim>\<open>sort\<close>.\<close>

definition byUpdatedAtDesc :: "session \<Rightarrow> session \<Rightarrow> int" where
  "byUpdatedAtDesc a b =
     (case (session_updatedAt a, session_updatedAt b) of (Some x, Some y) \<Rightarrow> y - x | _ \<Rightarrow> 0)"

definition cronDaily :: "int \<Rightarrow> session_task" where
  "cronDaily now =
     \<lparr> st_id = Some (js ''cron-daily''),
       st_title = [0x6BCF, 0x65E5, 0x20, 0x32, 0x32, 0x3A, 0x30, 0x30, 0x20, 0x512A, 0x5316, 0x56DE, 0x9867],
       st_status = js ''scheduled'', st_updatedAt = Some now \<rparr>"

datatype getTasks_result = Undefined | Array "session_task list"

text \<open>
  \<open>getTasks\<close>, given the registry (\<open>None\<close>: \<^verbatim>\<open>sessions.json\<close> is missing, or reading or
  parsing it throws; both end in \<^verbatim>\<open>return []\<close>) and \<open>now\<close>, the one reading of
  \<^verbatim>\<open>Date.now()\<close>. A bare \<^verbatim>\<open>return\<close> inside the loop makes the function yield
  \<^verbatim>\<open>undefined\<close>; an exception is caught and yields the empty array.
\<close>

definition getTasks :: "int \<Rightarrow> (jsstring \<Rightarrow> jsstring option) \<Rightarrow> session list option \<Rightarrow> getTasks_result" where
  "getTasks now logTitle registry =
     (case registry of
        None \<Rightarrow> Array []
      | Some data \<Rightarrow>
         (case getTasks_loop now logTitle (array_sort byUpdatedAtDesc data) [] of
            Completed tasks \<Rightarrow> Array (tasks @ [cronDaily now])
          | Returned \<Rightarrow> Undefined
          | Thrown \<Rightarrow> Array []))"

datatype type_error = NotIterable

text \<open>\<^verbatim>\<open>const allTasks = [...inboxTasks, ...tasks]\<close> in \<open>updateStatus\<close>: spreading
  \<^verbatim>\<open>undefined\<close> throws a TypeError.\<close>

definition updateStatus_allTasks :: "task list \<Rightarrow> getTasks_result \<Rightarrow> type_error + (task + session_task) list" where
  "updateStatus_allTasks inboxTasks tasks =
     (case tasks of
        Undefined \<Rightarrow> Inl NotIterable
      | Array ts \<Rightarrow> Inr (map Inl inboxTasks @ map Inr ts))"

section \<open>The two patterns read deterministically\<close>





section \<open>Example inputs\<close>

text \<open>The main session, last updated at the epoch, with ten tokens used.\<close>

definition exMain :: session where
  "exMain = \<lparr> session_key = Some mainKey, session_sessionId = Some (js ''main-session''),
     session_label = None, session_model = None, session_modelProvider = None,
     session_updatedAt = Some 0, session_totalTokens = Some 10, session_inputTokens = None,
     session_outputTokens = None, session_sessionFile = None \<rparr>"

text \<open>Task files: a pending coding task with front matter, a completed task, a pending
  task with two blanks after the key, a note without any metadata; and a directory whose
  name ends in \<open>.md\<close>.\<close>

definition exPendingCoding :: jsstring where
  "exPendingCoding = js ''---\<newline>status: pending\<newline>type: coding\<newline>---\<newline># Fix the build''"

definition exCompleted :: jsstring where
  "exCompleted = js ''---\<newline>status: completed\<newline>---\<newline># Done''"

definition exSpaced :: jsstring where
  "exSpaced = js ''status:  pending''"

definition exNote :: jsstring where
  "exNote = js ''remember the milk''"

definition exFile :: "rat \<Rightarrow> jsstring \<Rightarrow> inode" where
  "exFile t c = \<lparr> mtimeMs = t, contents = Some c, writable = True \<rparr>"

definition exDirectory :: inode where
  "exDirectory = \<lparr> mtimeMs = 0, contents = None, writable = False \<rparr>"


text \<open>Worlds whose clock reads 1700000000000 ms and advances by one at each reading.\<close>

definition exWorld :: "jsstring list \<Rightarrow> (jsstring \<Rightarrow> inode option) \<Rightarrow> world" where
  "exWorld names fs =
     \<lparr> inbox = Listing names, files = fs, clock = (\<lambda>k. 1700000000000 + int k),
       ticks = 0, effects = [] \<rparr>"

definition exTwoPending :: world where
  "exTwoPending =
     exWorld [js ''a.md'', js ''b.md'']
       [js ''a.md'' \<mapsto> exFile (201 / 2) exPendingCoding, js ''b.md'' \<mapsto> exFile 200 exPendingCoding]"

definition exMixed :: world where
  "exMixed =
     exWorld [js ''a.md'', js ''b.md'']
       [js ''a.md'' \<mapsto> exFile 100 exPendingCoding, js ''b.md'' \<mapsto> exFile 50 exCompleted]"

definition exBroken :: world where
  "exBroken =
     exWorld [js ''d.md'', js ''a.md'']
       [js ''d.md'' \<mapsto> exDirectory, js ''a.md'' \<mapsto> exFile 100 exCompleted]"

definition exOne :: "jsstring \<Rightarrow> world" where
  "exOne content = exWorld [js ''a.md''] [js ''a.md'' \<mapsto> exFile 100 content]"

section \<open>Properties of the title\<close>

lemma firstLineOf_append: "0x0A \<notin> set l \<Longrightarrow> firstLineOf (l @ 0x0A # rest) = l"
  unfolding firstLineOf_def by (induction l) auto

lemma firstLineOf_single: "0x0A \<notin> set l \<Longrightarrow> firstLineOf l = l"
  unfolding firstLineOf_def by (induction l) auto

lemma startsWith_iff: "startsWith s p \<longleftrightarrow> (\<exists>t. s = p @ t)"
  unfolding startsWith_def
  by (metis append_eq_conv_conj append_take_drop_id)

lemma trim_empty_iff: "trim s = [] \<longleftrightarrow> (\<forall>c\<in>set s. isSpace c)"
proof -
  have "(\<forall>x\<in>set (dropWhile isSpace s). isSpace x) \<longleftrightarrow> (\<forall>c\<in>set s. isSpace c)"
  proof
    assume a: "\<forall>x\<in>set (dropWhile isSpace s). isSpace x"
    show "\<forall>c\<in>set s. isSpace c"
    proof (rule ccontr)
      assume "\<not> (\<forall>c\<in>set s. isSpace c)"
      then have ne: "dropWhile isSpace s \<noteq> []"
        by (simp add: dropWhile_eq_Nil_conv)
      then have "\<not> isSpace (hd (dropWhile isSpace s))"
        by (rule hd_dropWhile)
      moreover have "hd (dropWhile isSpace s) \<in> set (dropWhile isSpace s)"
        using ne by simp
      ultimately show False
        using a by blast
    qed
  next
    assume "\<forall>c\<in>set s. isSpace c"
    then show "\<forall>x\<in>set (dropWhile isSpace s). isSpace x"
      by (meson set_dropWhileD)
  qed
  then show ?thesis
    unfolding trim_def by (simp add: dropWhile_eq_Nil_conv)
qed

text \<open>
  Claim C10, as the code has it. Only the first line of the content is looked at, whatever
  follows it: the title is the text after \<open>''# ''\<close> or \<open>''## ''\<close> when the first line
  starts with one of them, trimmed; otherwise the trimmed first line cut to 50 code
  units when that line has a character that is not white space; otherwise the file name
  with its first \<open>''.md''\<close> removed.
\<close>

theorem C10_title_first_line_only:
  assumes "0x0A \<notin> set l"
  shows "processInbox_title file (l @ 0x0A # rest) = processInbox_title file l
    \<and> processInbox_title file l =
        (if \<exists>t. l = js ''# '' @ t then trim (drop 2 l)
         else if \<exists>t. l = js ''## '' @ t then trim (drop 3 l)
         else if \<exists>c\<in>set l. \<not> isSpace c then take 50 (trim l)
         else replaceString (js ''.md'') [] file)
    \<and> length (take 50 (trim l)) \<le> 50"
  using assms
  by (simp add: processInbox_title_def firstLineOf_append firstLineOf_single Let_def
      startsWith_iff trim_empty_iff slice_def substring0_def)

text \<open>
  A content whose first line is empty and whose second line is \<open>Hello\<close>: the title is
  the file name without \<open>.md\<close>, not the first non-empty line.
\<close>

theorem C10_blank_first_line_counterexample:
  "processInbox_title (js ''a.md'') (js ''\<newline>Hello'') = js ''a''
   \<and> processInbox_title (js ''a.md'') (js ''\<newline>Hello'') \<noteq> js ''Hello''"
  by code_simp

theorem C10_witness:
  "0x0A \<notin> set (js ''  notes  '')
   \<and> processInbox_title (js ''a.md'') (js ''  notes  '' @ 0x0A # js ''# Title'') = js ''notes''"
proof -
  have h: "0x0A \<notin> set (js ''  notes  '')" by code_simp
  have e: "processInbox_title (js ''a.md'') (js ''  notes  '') = js ''notes''" by code_simp
  from C10_title_first_line_only [OF h, of "js ''a.md''" "js ''# Title''"] e h show ?thesis by simp
qed

section \<open>Properties of the worker status\<close>

lemma js_active_neq_idle: "js ''active'' \<noteq> js ''idle''"
  by (simp add: js_def)

text \<open>
  Claim C9. A worker is \<open>active\<close> exactly when \<open>now\<close> minus the \<open>updatedAt\<close> of its
  record (zero when the field is missing) is strictly below 300000 ms, and \<open>idle\<close>
  otherwise. A record without \<open>updatedAt\<close> has the age \<open>now - 0\<close>, the largest age a
  record with a time stamp since the epoch can have, and is idle for every clock
  reading of at least 300000 ms.
\<close>

theorem C9_status_by_age:
  "(agent_status (parseSessionsFile_forEach now s) = js ''active''
      \<longleftrightarrow> now - (case session_updatedAt s of Some u \<Rightarrow> u | None \<Rightarrow> 0) < 300000)
   \<and> (agent_status (parseSessionsFile_forEach now s) = js ''idle''
      \<longleftrightarrow> \<not> now - (case session_updatedAt s of Some u \<Rightarrow> u | None \<Rightarrow> 0) < 300000)
   \<and> agent_ageMs (parseSessionsFile_forEach now s)
        = now - (case session_updatedAt s of Some u \<Rightarrow> u | None \<Rightarrow> 0)
   \<and> (session_updatedAt s = None \<longrightarrow>
        agent_ageMs (parseSessionsFile_forEach now s) = now
        \<and> (300000 \<le> now \<longrightarrow> agent_status (parseSessionsFile_forEach now s) = js ''idle''))"
  using js_active_neq_idle
  by (auto simp: parseSessionsFile_forEach_def Let_def numOr_def split: option.splits)

theorem C9_witness:
  "session_updatedAt (exMain\<lparr>session_updatedAt := None\<rparr>) = None
   \<and> (300000::int) \<le> 1700000000000
   \<and> agent_ageMs (parseSessionsFile_forEach 1700000000000 (exMain\<lparr>session_updatedAt := None\<rparr>))
        = 1700000000000
   \<and> agent_status (parseSessionsFile_forEach 1700000000000 (exMain\<lparr>session_updatedAt := None\<rparr>))
        = js ''idle''"
  using C9_status_by_age [of 1700000000000 "exMain\<lparr>session_updatedAt := None\<rparr>"]
  by simp

section \<open>Properties of getTasks\<close>

lemma set_sort_insert: "set (sort_insert cmp x ys) = insert x (set ys)"
  by (induction ys) auto

lemma set_foldl_sort_insert:
  "set (foldl (\<lambda>acc x. sort_insert cmp x acc) acc xs) = set acc \<union> set xs"
  by (induction xs arbitrary: acc) (auto simp: set_sort_insert)

lemma set_array_sort: "set (array_sort cmp xs) = set xs"
  by (simp add: array_sort_def set_foldl_sort_insert)

lemma fallbackTitle_sessionId:
  "sessionId \<noteq> None \<Longrightarrow> \<exists>t. fallbackTitle title label sessionId = Inr t"
  by (auto simp: fallbackTitle_def)

lemma getTasks_session_Return_iff:
  assumes "session_sessionId s \<noteq> None"
  shows "getTasks_session now logTitle s = Return
     \<longleftrightarrow> session_key s = Some mainKey \<and> \<not> (isDone now s \<and> olderThan now s 3600000)"
proof -
  obtain t where "fallbackTitle (case session_sessionFile s of
                       None \<Rightarrow> strOr (session_label s) (js ''Unknown'')
                     | Some f \<Rightarrow> if f = [] then strOr (session_label s) (js ''Unknown'') else strOr (logTitle f) (strOr (session_label s) (js ''Unknown'')))
      (strOr (session_label s) (js ''Unknown'')) (session_sessionId s) = Inr t"
    using fallbackTitle_sessionId [OF assms] by blast
  then show ?thesis
    by (simp add: getTasks_session_def Let_def)
qed

lemma getTasks_session_no_Throw:
  assumes "session_sessionId s \<noteq> None"
  shows "getTasks_session now logTitle s \<noteq> Throw"
proof -
  obtain t where "fallbackTitle (case session_sessionFile s of
                       None \<Rightarrow> strOr (session_label s) (js ''Unknown'')
                     | Some f \<Rightarrow> if f = [] then strOr (session_label s) (js ''Unknown'') else strOr (logTitle f) (strOr (session_label s) (js ''Unknown'')))
      (strOr (session_label s) (js ''Unknown'')) (session_sessionId s) = Inr t"
    using fallbackTitle_sessionId [OF assms] by blast
  then show ?thesis
    by (simp add: getTasks_session_def Let_def)
qed

lemma getTasks_loop_Returned_iff:
  assumes "\<forall>s\<in>set ss. getTasks_session now logTitle s \<noteq> Throw"
  shows "getTasks_loop now logTitle ss tasks = Returned
           \<longleftrightarrow> (\<exists>s\<in>set ss. getTasks_session now logTitle s = Return)"
  using assms
proof (induction ss arbitrary: tasks)
  case Nil
  then show ?case by simp
next
  case (Cons s ss)
  then show ?case
    by (cases "getTasks_session now logTitle s") auto
qed

lemma getTasks_loop_not_Thrown:
  assumes "\<forall>s\<in>set ss. getTasks_session now logTitle s \<noteq> Throw"
  shows "getTasks_loop now logTitle ss tasks \<noteq> Thrown"
  using assms
proof (induction ss arbitrary: tasks)
  case Nil
  then show ?case by simp
next
  case (Cons s ss)
  then show ?case
    by (cases "getTasks_session now logTitle s") auto
qed

text \<open>
  Claim C8, as the code has it. In a registry whose records all carry a \<open>sessionId\<close>,
  \<open>getTasks\<close> yields \<open>undefined\<close> exactly when some record with the key
  \<open>agent:main:main\<close> is not skipped by the rule that hides sessions finished more than
  an hour ago; the spread in \<open>updateStatus\<close> then throws. Otherwise the result is an
  array that ends with the cron entry.
\<close>

theorem C8_undefined_unless_hidden:
  assumes "\<forall>s\<in>set data. session_sessionId s \<noteq> None"
  shows "(getTasks now logTitle (Some data) = Undefined
            \<longleftrightarrow> (\<exists>s\<in>set data. session_key s = Some mainKey
                    \<and> \<not> (isDone now s \<and> olderThan now s 3600000)))
    \<and> (getTasks now logTitle (Some data) = Undefined
          \<longrightarrow> updateStatus_allTasks inboxTasks (getTasks now logTitle (Some data)) = Inl NotIterable)
    \<and> (getTasks now logTitle (Some data) \<noteq> Undefined
          \<longrightarrow> (\<exists>ts. getTasks now logTitle (Some data) = Array (ts @ [cronDaily now])))"
proof -
  let ?ss = "array_sort byUpdatedAtDesc data"
  have nt: "\<forall>s\<in>set ?ss. getTasks_session now logTitle s \<noteq> Throw"
    using assms by (simp add: set_array_sort getTasks_session_no_Throw)
  have ret: "(\<exists>s\<in>set ?ss. getTasks_session now logTitle s = Return)
      \<longleftrightarrow> (\<exists>s\<in>set data. session_key s = Some mainKey
                    \<and> \<not> (isDone now s \<and> olderThan now s 3600000))"
    using assms by (auto simp: set_array_sort getTasks_session_Return_iff)
  show ?thesis
    using getTasks_loop_Returned_iff [OF nt, of "[]"] getTasks_loop_not_Thrown [OF nt, of "[]"] ret
    by (cases "getTasks_loop now logTitle ?ss []")
       (auto simp: getTasks_def updateStatus_allTasks_def)
qed

text \<open>
  The registry holds only the main session, finished (ten tokens) and last updated more
  than an hour before \<open>now\<close>: the record is skipped by \<^verbatim>\<open>continue\<close>, the cron entry is
  returned and the spread succeeds.
\<close>

theorem C8_hidden_main_counterexample:
  "session_key exMain = Some (js ''agent:main:main'')
   \<and> getTasks 4000000 (\<lambda>f. None) (Some [exMain]) = Array [cronDaily 4000000]
   \<and> updateStatus_allTasks [] (getTasks 4000000 (\<lambda>f. None) (Some [exMain]))
        = Inr [Inr (cronDaily 4000000)]"
  by code_simp

theorem C8_witness:
  "session_sessionId exMain \<noteq> None
   \<and> session_key exMain = Some mainKey
   \<and> \<not> (isDone 1000 exMain \<and> olderThan 1000 exMain 3600000)
   \<and> getTasks 1000 (\<lambda>f. None) (Some [exMain]) = Undefined
   \<and> updateStatus_allTasks [] (getTasks 1000 (\<lambda>f. None) (Some [exMain])) = Inl NotIterable"
proof -
  have h: "\<forall>s\<in>set [exMain]. session_sessionId s \<noteq> None" by code_simp
  have m: "\<exists>s\<in>set [exMain]. session_key s = Some mainKey
                    \<and> \<not> (isDone 1000 s \<and> olderThan 1000 s 3600000)" by code_simp
  have k: "session_key exMain = Some mainKey
      \<and> \<not> (isDone 1000 exMain \<and> olderThan 1000 exMain 3600000)" by code_simp
  from C8_undefined_unless_hidden [OF h, of 1000 "\<lambda>f. None" "[]"] m h k show ?thesis by auto
qed

section \<open>Properties of the two patterns\<close>























lemma unknown_neq_pending: "js ''unknown'' \<noteq> js ''pending''"
  by (simp add: js_def)



section \<open>Properties of the loop body\<close>

lemma exFile_simps:
  "contents (exFile t c) = Some c" "writable (exFile t c)" "mtimeMs (exFile t c) = t"
  by (simp_all add: exFile_def)



lemma processInbox_file_skip:
  "\<not> endsWith file (js ''.md'') \<Longrightarrow> processInbox_file agents file w = Inr (None, w)"
  by (simp add: processInbox_file_def)

lemma processInbox_file_ENOENT:
  "endsWith file (js ''.md'') \<Longrightarrow> files w file = None \<Longrightarrow> processInbox_file agents file w = Inl ENOENT"
  by (simp add: processInbox_file_def statSync_def)

lemma processInbox_file_EISDIR:
  "endsWith file (js ''.md'') \<Longrightarrow> files w file = Some nd \<Longrightarrow> contents nd = None
     \<Longrightarrow> processInbox_file agents file w = Inl EISDIR"
  by (simp add: processInbox_file_def statSync_def readFileSync_def)

lemma processInbox_file_read:
  assumes "endsWith file (js ''.md'')" "files w file = Some nd" "contents nd = Some content"
  shows "processInbox_file agents file w =
    (if statusOf content = js ''pending'' \<and> \<not> isBusy agents (fst (route (typeOf content))) then
       (case writeFileSync file (newContent content) w of
          Inl e \<Rightarrow> Inl e
        | Inr w1 \<Rightarrow>
            Inr (Some \<lparr> task_id = js ''inbox-'' @ file, task_title = processInbox_title file content,
                        task_status = js ''dispatched'', task_updatedAt = clock w1 (ticks w1) \<rparr>,
                 w1\<lparr> ticks := Suc (ticks w1),
                     effects := effects w1 @ [Exec \<lparr> spawn_label = fst (route (typeOf content)),
                                            spawn_model = snd (route (typeOf content)),
                                            spawn_file = file, spawn_content = content \<rparr>] \<rparr>))
     else Inr (Some \<lparr> task_id = js ''inbox-'' @ file, task_title = processInbox_title file content,
                 task_status = statusOf content, task_updatedAt = \<lfloor>mtimeMs nd\<rfloor> \<rparr>, w))"
proof -
  have st: "statSync file w = Inr nd" using assms by (simp add: statSync_def)
  have rd: "readFileSync file w = Inr content" using assms by (simp add: readFileSync_def)
  show ?thesis
    unfolding processInbox_file_def st rd
    using assms(1)
    by (cases "writeFileSync file (newContent content) w")
       (simp_all add: exec_def Date_now_def Let_def split_beta)
qed

lemma writeFileSync_existing:
  assumes "files w path = Some nd" "contents nd = Some content"
  shows "writeFileSync path data w =
     (if writable nd
      then Inr (w\<lparr> files := (files w)(path \<mapsto> nd\<lparr> mtimeMs := of_int (clock w (ticks w)), contents := Some data \<rparr>),
                  ticks := Suc (ticks w),
                  effects := effects w @ [WriteFile path data] \<rparr>)
      else Inl EACCES)"
  using assms by (simp add: writeFileSync_def Let_def)

lemma processInbox_file_dispatch:
  assumes "endsWith file (js ''.md'')" "files w file = Some nd" "contents nd = Some content"
    and "writable nd" "statusOf content = js ''pending''"
    and "\<not> isBusy agents (fst (route (typeOf content)))"
  shows "processInbox_file agents file w =
     Inr (Some \<lparr> task_id = js ''inbox-'' @ file, task_title = processInbox_title file content,
                 task_status = js ''dispatched'', task_updatedAt = clock w (Suc (ticks w)) \<rparr>,
          w\<lparr> files := (files w)(file \<mapsto> nd\<lparr> mtimeMs := of_int (clock w (ticks w)),
                                               contents := Some (newContent content) \<rparr>),
             ticks := Suc (Suc (ticks w)),
             effects := effects w @ [WriteFile file (newContent content),
                                     Exec \<lparr> spawn_label = fst (route (typeOf content)),
                                            spawn_model = snd (route (typeOf content)),
                                            spawn_file = file, spawn_content = content \<rparr>] \<rparr>)"
  using assms(4,5,6)
  by (simp add: processInbox_file_read [OF assms(1,2,3)] writeFileSync_existing [OF assms(2,3)])

lemma processInbox_file_EACCES:
  assumes "endsWith file (js ''.md'')" "files w file = Some nd" "contents nd = Some content"
    and "\<not> writable nd" "statusOf content = js ''pending''"
    and "\<not> isBusy agents (fst (route (typeOf content)))"
  shows "processInbox_file agents file w = Inl EACCES"
  using assms(4,5,6)
  by (simp add: processInbox_file_read [OF assms(1,2,3)] writeFileSync_existing [OF assms(2,3)])

lemma processInbox_file_listed:
  assumes "endsWith file (js ''.md'')" "files w file = Some nd" "contents nd = Some content"
    and "\<not> (statusOf content = js ''pending'' \<and> \<not> isBusy agents (fst (route (typeOf content))))"
  shows "processInbox_file agents file w =
     Inr (Some \<lparr> task_id = js ''inbox-'' @ file, task_title = processInbox_title file content,
                 task_status = statusOf content, task_updatedAt = \<lfloor>mtimeMs nd\<rfloor> \<rparr>, w)"
  using assms(4)
  by (auto simp: processInbox_file_read [OF assms(1,2,3)])

lemma processInbox_file_Inr:
  assumes "processInbox_file agents file w = Inr (p, w')"
  shows "(\<not> endsWith file (js ''.md'') \<and> p = None \<and> w' = w)
    \<or> (endsWith file (js ''.md'') \<and> (\<exists>nd content. files w file = Some nd \<and> contents nd = Some content
          \<and> (statusOf content = js ''pending'' \<and> \<not> isBusy agents (fst (route (typeOf content)))
                \<longrightarrow> writable nd)))"
proof (cases "endsWith file (js ''.md'')")
  case False
  with assms show ?thesis by (simp add: processInbox_file_skip)
next
  case md: True
  show ?thesis
  proof (cases "files w file")
    case None
    with assms md show ?thesis by (simp add: processInbox_file_ENOENT)
  next
    case (Some nd)
    show ?thesis
    proof (cases "contents nd")
      case None
      with assms md Some show ?thesis by (simp add: processInbox_file_EISDIR)
    next
      case c: (Some content)
      show ?thesis
      proof (cases "statusOf content = js ''pending'' \<and> \<not> isBusy agents (fst (route (typeOf content))) \<and> \<not> writable nd")
        case True
        with assms processInbox_file_EACCES [OF md Some c] show ?thesis by simp
      next
        case False
        with md Some c show ?thesis by auto
      qed
    qed
  qed
qed

lemma processInbox_file_frame:
  assumes "processInbox_file agents file w = Inr (p, w')"
  shows "inbox w' = inbox w \<and> clock w' = clock w \<and> ticks w \<le> ticks w'
       \<and> (\<forall>g. g \<noteq> file \<longrightarrow> files w' g = files w g)
       \<and> (\<exists>evs. effects w' = effects w @ evs)"
proof -
  from processInbox_file_Inr [OF assms]
  consider "\<not> endsWith file (js ''.md'')" "w' = w"
    | nd content where "endsWith file (js ''.md'')" "files w file = Some nd" "contents nd = Some content"
        "statusOf content = js ''pending''" "\<not> isBusy agents (fst (route (typeOf content)))" "writable nd"
    | nd content where "endsWith file (js ''.md'')" "files w file = Some nd" "contents nd = Some content"
        "\<not> (statusOf content = js ''pending'' \<and> \<not> isBusy agents (fst (route (typeOf content))))"
    by blast
  then show ?thesis
  proof cases
    case 1
    then show ?thesis by simp
  next
    case 2
    from processInbox_file_dispatch [OF 2(1,2,3,6,4,5)] assms
    have "w' = w\<lparr> files := (files w)(file \<mapsto> nd\<lparr> mtimeMs := of_int (clock w (ticks w)),
                                               contents := Some (newContent content) \<rparr>),
             ticks := Suc (Suc (ticks w)),
             effects := effects w @ [WriteFile file (newContent content),
                                     Exec \<lparr> spawn_label = fst (route (typeOf content)),
                                            spawn_model = snd (route (typeOf content)),
                                            spawn_file = file, spawn_content = content \<rparr>] \<rparr>"
      by simp
    then show ?thesis by simp
  next
    case 3
    from processInbox_file_listed [OF 3] assms have "w' = w" by simp
    then show ?thesis by simp
  qed
qed

lemma processInbox_file_effects:
  assumes "processInbox_file agents file w = Inr (p, w')"
  shows "\<exists>evs. effects w' = effects w @ evs \<and> (\<forall>e\<in>set evs. effect_file e = file)"
proof -
  from processInbox_file_Inr [OF assms]
  consider "\<not> endsWith file (js ''.md'')" "w' = w"
    | nd content where "endsWith file (js ''.md'')" "files w file = Some nd" "contents nd = Some content"
        "statusOf content = js ''pending''" "\<not> isBusy agents (fst (route (typeOf content)))" "writable nd"
    | nd content where "endsWith file (js ''.md'')" "files w file = Some nd" "contents nd = Some content"
        "\<not> (statusOf content = js ''pending'' \<and> \<not> isBusy agents (fst (route (typeOf content))))"
    by blast
  then show ?thesis
  proof cases
    case 1
    then show ?thesis by simp
  next
    case 2
    from processInbox_file_dispatch [OF 2(1,2,3,6,4,5)] assms
    have "effects w' = effects w @ [WriteFile file (newContent content),
                                     Exec \<lparr> spawn_label = fst (route (typeOf content)),
                                            spawn_model = snd (route (typeOf content)),
                                            spawn_file = file, spawn_content = content \<rparr>]"
      by auto
    then show ?thesis by simp
  next
    case 3
    from processInbox_file_listed [OF 3] assms have "w' = w" by simp
    then show ?thesis by simp
  qed
qed


lemma processInbox_file_ok:
  assumes "endsWith f (js ''.md'')" "files w f = Some nd" "contents nd = Some content" "writable nd"
  shows "\<exists>t w1. processInbox_file agents f w = Inr (Some t, w1) \<and> task_id t = js ''inbox-'' @ f
     \<and> (\<forall>g nd c. files w g = Some nd \<and> contents nd = Some c \<and> writable nd
            \<longrightarrow> (\<exists>nd' c'. files w1 g = Some nd' \<and> contents nd' = Some c' \<and> writable nd'))"
proof (cases "statusOf content = js ''pending'' \<and> \<not> isBusy agents (fst (route (typeOf content)))")
  case True
  then have a: "statusOf content = js ''pending''" and b: "\<not> isBusy agents (fst (route (typeOf content)))"
    by simp_all
  show ?thesis
    unfolding processInbox_file_dispatch [OF assms a b] using assms(4) by auto
next
  case False
  show ?thesis
    unfolding processInbox_file_listed [OF assms(1,2,3) False] by simp
qed




section \<open>Properties of the scan\<close>

lemma processInbox_loop_frame:
  assumes "processInbox_loop agents names tasks w = (r, tasks', w')"
  shows "inbox w' = inbox w \<and> clock w' = clock w \<and> ticks w \<le> ticks w'
       \<and> (\<forall>g. g \<notin> set names \<longrightarrow> files w' g = files w g)
       \<and> (\<exists>evs. effects w' = effects w @ evs \<and> (\<forall>e\<in>set evs. effect_file e \<in> set names))
       \<and> (\<exists>ts. tasks' = tasks @ ts)"
  using assms
proof (induction names arbitrary: tasks w)
  case Nil
  then show ?case by simp
next
  case (Cons f rest)
  show ?case
  proof (cases "processInbox_file agents f w")
    case (Inl e)
    with Cons.prems show ?thesis by simp
  next
    case (Inr pw)
    obtain p w1 where pw: "pw = (p, w1)" by (cases pw)
    with Inr have b: "processInbox_file agents f w = Inr (p, w1)" by simp
    with Cons.prems have l: "processInbox_loop agents rest (tasks @ (case p of None \<Rightarrow> [] | Some t \<Rightarrow> [t])) w1 = (r, tasks', w')"
      by simp
    note fr = processInbox_file_frame [OF b] processInbox_file_effects [OF b]
    note ih = Cons.IH [OF l]
    from fr ih have "inbox w' = inbox w" "clock w' = clock w" "ticks w \<le> ticks w'"
      by auto
    moreover from fr ih have "\<forall>g. g \<notin> set (f # rest) \<longrightarrow> files w' g = files w g"
      by auto
    moreover from fr ih have "\<exists>evs. effects w' = effects w @ evs \<and> (\<forall>e\<in>set evs. effect_file e \<in> set (f # rest))"
      by (metis (no_types, lifting) Un_iff append.assoc list.set_intros(1,2) set_append)
    moreover from ih have "\<exists>ts. tasks' = tasks @ ts"
      by auto
    ultimately show ?thesis by blast
  qed
qed

lemma processInbox_loop_append:
  "processInbox_loop agents (xs @ ys) tasks w =
     (case processInbox_loop agents xs tasks w of
        (None, t1, w1) \<Rightarrow> processInbox_loop agents ys t1 w1
      | (Some e, t1, w1) \<Rightarrow> (Some e, t1, w1))"
proof (induction xs arbitrary: tasks w)
  case Nil
  then show ?case by simp
next
  case (Cons x xs)
  then show ?case
    by (cases "processInbox_file agents x w") (auto split: prod.splits)
qed

lemma processInbox_Listing:
  assumes "inbox w = Listing names" "processInbox_loop agents names [] w = (r, tasks', w')"
  shows "snd (processInbox agents w) = w'"
    and "set (fst (processInbox agents w)) = set tasks'"
    and "r = None \<Longrightarrow> fst (processInbox agents w) = array_sort (\<lambda>a b. task_updatedAt a - task_updatedAt b) tasks'"
    and "r \<noteq> None \<Longrightarrow> fst (processInbox agents w) = tasks'"
  using assms by (cases r; simp add: processInbox_def set_array_sort)+













lemma sorted_sort_insert:
  fixes key :: "'a \<Rightarrow> int"
  assumes "sorted (map key ys)"
  shows "sorted (map key (sort_insert (\<lambda>a b. key a - key b) x ys))"
  using assms by (induction ys) (auto simp: set_sort_insert)

lemma sorted_foldl_sort_insert:
  fixes key :: "'a \<Rightarrow> int"
  assumes "sorted (map key acc)"
  shows "sorted (map key (foldl (\<lambda>acc x. sort_insert (\<lambda>a b. key a - key b) x acc) acc xs))"
  using assms by (induction xs arbitrary: acc) (simp_all add: sorted_sort_insert)

lemma sorted_array_sort:
  fixes key :: "'a \<Rightarrow> int"
  shows "sorted (map key (array_sort (\<lambda>a b. key a - key b) xs))"
  by (simp add: array_sort_def sorted_foldl_sort_insert)




text \<open>
  Claim C5, as the code has it. The returned list of a scan that runs to its end is
  ordered by \<open>updatedAt\<close> alone: an entry with a smaller \<open>updatedAt\<close> than another one
  comes before it. Tasks dispatched in the tick are not moved to the front; they stand
  where their dispatch time puts them.
\<close>

theorem C5_order_is_by_updatedAt:
  assumes "inbox w = Listing names"
    and "fst (processInbox_loop agents names [] w) = None"
    and "i < length (fst (processInbox agents w))" "j < length (fst (processInbox agents w))"
    and "task_updatedAt (fst (processInbox agents w) ! j) < task_updatedAt (fst (processInbox agents w) ! i)"
  shows "j < i"
proof (rule ccontr)
  assume "\<not> j < i"
  then have ij: "i \<le> j" by simp
  obtain tasks' w' where l: "processInbox_loop agents names [] w = (None, tasks', w')"
    using assms(2) by (cases "processInbox_loop agents names [] w") auto
  have "sorted (map task_updatedAt (fst (processInbox agents w)))"
    by (simp add: processInbox_Listing(3) [OF assms(1) l] sorted_array_sort)
  from sorted_nth_mono [OF this ij] assms(3,4)
  have "task_updatedAt (fst (processInbox agents w) ! i) \<le> task_updatedAt (fst (processInbox agents w) ! j)"
    by simp
  with assms(5) show False by simp
qed

text \<open>
  A pending task (modified at 100 ms) and a completed one (modified at 50 ms), no
  worker busy: the task dispatched in this tick is the last entry, after the completed
  task.
\<close>

theorem C5_dispatched_last_counterexample:
  "map task_id (fst (processInbox [] exMixed)) = [js ''inbox-b.md'', js ''inbox-a.md'']
   \<and> map task_status (fst (processInbox [] exMixed)) = [js ''completed'', js ''dispatched'']
   \<and> map effect_file (newEffects exMixed (snd (processInbox [] exMixed))) = [js ''a.md'', js ''a.md'']"
  by code_simp

theorem C5_witness:
  "fst (processInbox_loop [] [js ''a.md'', js ''b.md''] [] exMixed) = None
   \<and> task_updatedAt (fst (processInbox [] exMixed) ! 0) < task_updatedAt (fst (processInbox [] exMixed) ! 1)
   \<and> (0::nat) < 1"
proof -
  have h1: "inbox exMixed = Listing [js ''a.md'', js ''b.md'']" by code_simp
  have h2: "fst (processInbox_loop [] [js ''a.md'', js ''b.md''] [] exMixed) = None" by code_simp
  have h3: "1 < length (fst (processInbox [] exMixed))" by code_simp
  have h4: "0 < length (fst (processInbox [] exMixed))" by code_simp
  have h5: "task_updatedAt (fst (processInbox [] exMixed) ! 0) < task_updatedAt (fst (processInbox [] exMixed) ! 1)"
    by code_simp
  from C5_order_is_by_updatedAt [OF h1 h2 h3 h4 h5] h2 h5
  show ?thesis by blast
qed

lemma statusOf_unknown: "matchGroup1 (fieldRegex (js ''status:'')) content = None \<Longrightarrow> statusOf content = js ''unknown''"
  by (simp add: statusOf_def)

lemma typeOf_general: "matchGroup1 (fieldRegex (js ''type:'')) content = None \<Longrightarrow> typeOf content = js ''general''"
  by (simp add: typeOf_def)

lemma route_general: "route (js ''general'') = (js ''handyman'', js ''google-antigravity/gemini-3-pro-high'')"
proof -
  have "js ''general'' \<noteq> js ''coding''" by (simp add: js_def)
  then show ?thesis by (simp add: route_def)
qed

lemma processInbox_loop_all_ok:
  assumes "\<forall>g\<in>set names. endsWith g (js ''.md'')
             \<longrightarrow> (\<exists>nd c. files w g = Some nd \<and> contents nd = Some c \<and> writable nd)"
  shows "\<exists>tasks' w'. processInbox_loop agents names tasks w = (None, tasks', w')
     \<and> (\<forall>g\<in>set names. endsWith g (js ''.md'')
            \<longrightarrow> (\<exists>t\<in>set (drop (length tasks) tasks'). task_id t = js ''inbox-'' @ g))"
  using assms
proof (induction names arbitrary: tasks w)
  case Nil
  then show ?case by simp
next
  case (Cons f rest)
  show ?case
  proof (cases "endsWith f (js ''.md'')")
    case False
    then have b: "processInbox_file agents f w = Inr (None, w)"
      by (rule processInbox_file_skip)
    from Cons.prems have "\<forall>g\<in>set rest. endsWith g (js ''.md'')
             \<longrightarrow> (\<exists>nd c. files w g = Some nd \<and> contents nd = Some c \<and> writable nd)"
      by simp
    from Cons.IH [OF this, of tasks] b False show ?thesis
      by auto
  next
    case True
    with Cons.prems obtain nd c where "files w f = Some nd" "contents nd = Some c" "writable nd"
      by auto
    from processInbox_file_ok [OF True this] obtain t w1
      where b: "processInbox_file agents f w = Inr (Some t, w1)"
        and id: "task_id t = js ''inbox-'' @ f"
        and keep: "\<forall>g nd c. files w g = Some nd \<and> contents nd = Some c \<and> writable nd
            \<longrightarrow> (\<exists>nd' c'. files w1 g = Some nd' \<and> contents nd' = Some c' \<and> writable nd')"
      by blast
    from Cons.prems keep have "\<forall>g\<in>set rest. endsWith g (js ''.md'')
             \<longrightarrow> (\<exists>nd c. files w1 g = Some nd \<and> contents nd = Some c \<and> writable nd)"
      by (metis list.set_intros(2))
    from Cons.IH [OF this, of "tasks @ [t]"] obtain tasks' w'
      where l: "processInbox_loop agents rest (tasks @ [t]) w1 = (None, tasks', w')"
        and r: "\<forall>g\<in>set rest. endsWith g (js ''.md'')
            \<longrightarrow> (\<exists>t'\<in>set (drop (length (tasks @ [t])) tasks'). task_id t' = js ''inbox-'' @ g)"
      by blast
    from processInbox_loop_frame [OF l] obtain ts where ts: "tasks' = (tasks @ [t]) @ ts"
      by blast
    have "\<forall>g\<in>set (f # rest). endsWith g (js ''.md'')
            \<longrightarrow> (\<exists>t'\<in>set (drop (length tasks) tasks'). task_id t' = js ''inbox-'' @ g)"
      using r id unfolding ts by auto
    moreover have "processInbox_loop agents (f # rest) tasks w = (None, tasks', w')"
      using b l by simp
    ultimately show ?thesis by blast
  qed
qed

text \<open>
  Claim C7, as the code has it. A readable file without a status match yields a record
  with status \<open>unknown\<close> and no effect; a content without a type match is routed like
  \<open>general\<close>, to \<open>handyman\<close>. The exceptions of the file system are caught once, around
  the whole scan: when a file operation throws for a file that the scan reaches, the
  tick returns the records pushed before that file, unsorted, and the files listed
  after it are not processed. When every listed task file is a readable and writable
  file, nothing throws and every one of them has a record in the result.
\<close>

theorem C7_unknown_status_and_scan_abort:
  "(endsWith f (js ''.md'') \<and> files w f = Some nd \<and> contents nd = Some content
      \<and> matchGroup1 (fieldRegex (js ''status:'')) content = None
     \<longrightarrow> processInbox_file agents f w =
           Inr (Some \<lparr> task_id = js ''inbox-'' @ f, task_title = processInbox_title f content,
                       task_status = js ''unknown'', task_updatedAt = \<lfloor>mtimeMs nd\<rfloor> \<rparr>, w))
   \<and> (matchGroup1 (fieldRegex (js ''type:'')) content2 = None
     \<longrightarrow> route (typeOf content2) = route (js ''general'')
         \<and> fst (route (typeOf content2)) = js ''handyman'')
   \<and> (inbox w3 = Listing (before @ g # after)
      \<and> processInbox_loop agents before [] w3 = (None, tasks1, w1)
      \<and> processInbox_file agents g w1 = Inl e
     \<longrightarrow> processInbox agents w3 = (tasks1, w1))
   \<and> (inbox w4 = Listing names
      \<and> (\<forall>h\<in>set names. endsWith h (js ''.md'')
            \<longrightarrow> (\<exists>nd c. files w4 h = Some nd \<and> contents nd = Some c \<and> writable nd))
     \<longrightarrow> fst (processInbox_loop agents names [] w4) = None
         \<and> (\<forall>h\<in>set names. endsWith h (js ''.md'')
              \<longrightarrow> (\<exists>t\<in>set (fst (processInbox agents w4)). task_id t = js ''inbox-'' @ h)))"
proof (intro conjI impI)
  assume a: "endsWith f (js ''.md'') \<and> files w f = Some nd \<and> contents nd = Some content
      \<and> matchGroup1 (fieldRegex (js ''status:'')) content = None"
  then have u: "statusOf content = js ''unknown''"
    by (simp add: statusOf_unknown)
  then have "\<not> (statusOf content = js ''pending'' \<and> \<not> isBusy agents (fst (route (typeOf content))))"
    using unknown_neq_pending by simp
  from processInbox_file_listed [OF _ _ _ this] a u
  show "processInbox_file agents f w =
           Inr (Some \<lparr> task_id = js ''inbox-'' @ f, task_title = processInbox_title f content,
                       task_status = js ''unknown'', task_updatedAt = \<lfloor>mtimeMs nd\<rfloor> \<rparr>, w)"
    by simp
next
  assume "matchGroup1 (fieldRegex (js ''type:'')) content2 = None"
  then show "route (typeOf content2) = route (js ''general'')"
    by (simp add: typeOf_general)
next
  assume "matchGroup1 (fieldRegex (js ''type:'')) content2 = None"
  then show "fst (route (typeOf content2)) = js ''handyman''"
    by (simp add: typeOf_general route_general)
next
  assume a: "inbox w3 = Listing (before @ g # after)
      \<and> processInbox_loop agents before [] w3 = (None, tasks1, w1)
      \<and> processInbox_file agents g w1 = Inl e"
  then have "processInbox_loop agents (before @ g # after) [] w3 = (Some e, tasks1, w1)"
    by (simp add: processInbox_loop_append)
  with a show "processInbox agents w3 = (tasks1, w1)"
    by (simp add: processInbox_def)
next
  assume a: "inbox w4 = Listing names
      \<and> (\<forall>h\<in>set names. endsWith h (js ''.md'')
            \<longrightarrow> (\<exists>nd c. files w4 h = Some nd \<and> contents nd = Some c \<and> writable nd))"
  then have ok: "\<forall>h\<in>set names. endsWith h (js ''.md'')
            \<longrightarrow> (\<exists>nd c. files w4 h = Some nd \<and> contents nd = Some c \<and> writable nd)"
    by simp
  from processInbox_loop_all_ok [OF ok, of agents "[]"] obtain tasks' w'
    where l: "processInbox_loop agents names [] w4 = (None, tasks', w')"
      and r: "\<forall>h\<in>set names. endsWith h (js ''.md'')
            \<longrightarrow> (\<exists>t\<in>set (drop (length ([]::task list)) tasks'). task_id t = js ''inbox-'' @ h)"
    by blast
  from l show "fst (processInbox_loop agents names [] w4) = None" by simp
  from a have i: "inbox w4 = Listing names" by simp
  from r show "\<forall>h\<in>set names. endsWith h (js ''.md'')
              \<longrightarrow> (\<exists>t\<in>set (fst (processInbox agents w4)). task_id t = js ''inbox-'' @ h)"
    unfolding processInbox_Listing(2) [OF i l] by simp
qed

text \<open>
  A directory \<open>d.md\<close> listed before the task file \<open>a.md\<close>: reading it throws, the scan
  ends, and the result is empty although \<open>a.md\<close> by itself is processed without error.
\<close>

theorem C7_directory_counterexample:
  "inbox exBroken = Listing [js ''d.md'', js ''a.md'']
   \<and> processInbox_file [] (js ''d.md'') exBroken = Inl EISDIR
   \<and> processInbox_file [] (js ''a.md'') exBroken
        = Inr (Some \<lparr> task_id = js ''inbox-'' @ js ''a.md'',
                      task_title = processInbox_title (js ''a.md'') exCompleted,
                      task_status = statusOf exCompleted,
                      task_updatedAt = \<lfloor>mtimeMs (exFile 100 exCompleted)\<rfloor> \<rparr>, exBroken)
   \<and> statusOf exCompleted = js ''completed''
   \<and> fst (processInbox [] exBroken) = []"
proof -
  have i: "inbox exBroken = Listing [js ''d.md'', js ''a.md'']" by code_simp
  have d: "processInbox_file [] (js ''d.md'') exBroken = Inl EISDIR"
  proof (rule processInbox_file_EISDIR)
    show "endsWith (js ''d.md'') (js ''.md'')" by code_simp
    show "files exBroken (js ''d.md'') = Some exDirectory" by code_simp
    show "contents exDirectory = None" by code_simp
  qed
  have s: "statusOf exCompleted = js ''completed''" by code_simp
  have a: "processInbox_file [] (js ''a.md'') exBroken
        = Inr (Some \<lparr> task_id = js ''inbox-'' @ js ''a.md'',
                      task_title = processInbox_title (js ''a.md'') exCompleted,
                      task_status = statusOf exCompleted,
                      task_updatedAt = \<lfloor>mtimeMs (exFile 100 exCompleted)\<rfloor> \<rparr>, exBroken)"
  proof (rule processInbox_file_listed)
    show "endsWith (js ''a.md'') (js ''.md'')" by code_simp
    show "files exBroken (js ''a.md'') = Some (exFile 100 exCompleted)" by code_simp
    show "contents (exFile 100 exCompleted) = Some exCompleted" by (rule exFile_simps)
    show "\<not> (statusOf exCompleted = js ''pending''
             \<and> \<not> isBusy [] (fst (route (typeOf exCompleted))))" by code_simp
  qed
  have e: "fst (processInbox [] exBroken) = []" by code_simp
  from i d a s e show ?thesis by (intro conjI)
qed

theorem C7_witness:
  "matchGroup1 (fieldRegex (js ''status:'')) exNote = None
   \<and> matchGroup1 (fieldRegex (js ''type:'')) exSpaced = None
   \<and> processInbox_file [] (js ''a.md'') (exOne exNote) =
        Inr (Some \<lparr> task_id = js ''inbox-'' @ js ''a.md'',
                    task_title = processInbox_title (js ''a.md'') exNote,
                    task_status = js ''unknown'', task_updatedAt = \<lfloor>mtimeMs (exFile 100 exNote)\<rfloor> \<rparr>,
             exOne exNote)
   \<and> fst (route (typeOf exSpaced)) = js ''handyman''
   \<and> processInbox_file [] (js ''d.md'') exBroken = Inl EISDIR
   \<and> processInbox [] exBroken = ([], exBroken)
   \<and> fst (processInbox_loop [] [js ''a.md'', js ''b.md''] [] exTwoPending) = None
   \<and> (\<exists>t\<in>set (fst (processInbox [] exTwoPending)). task_id t = js ''inbox-'' @ js ''b.md'')"
proof -
  have a1: "endsWith (js ''a.md'') (js ''.md'')" by code_simp
  have a2: "files (exOne exNote) (js ''a.md'') = Some (exFile 100 exNote)" by code_simp
  have a3: "contents (exFile 100 exNote) = Some exNote" by (rule exFile_simps)
  have a4: "matchGroup1 (fieldRegex (js ''status:'')) exNote = None" by code_simp
  have b1: "matchGroup1 (fieldRegex (js ''type:'')) exSpaced = None" by code_simp
  have c1: "inbox exBroken = Listing ([] @ js ''d.md'' # [js ''a.md''])" by code_simp
  have c2: "processInbox_loop [] [] [] exBroken = (None, [], exBroken)" by simp
  have c3: "processInbox_file [] (js ''d.md'') exBroken = Inl EISDIR"
  proof (rule processInbox_file_EISDIR)
    show "endsWith (js ''d.md'') (js ''.md'')" by code_simp
    show "files exBroken (js ''d.md'') = Some exDirectory" by code_simp
    show "contents exDirectory = None" by code_simp
  qed
  have d1: "inbox exTwoPending = Listing [js ''a.md'', js ''b.md'']" by code_simp
  have fa: "files exTwoPending (js ''a.md'') = Some (exFile (201 / 2) exPendingCoding)" by code_simp
  have fb: "files exTwoPending (js ''b.md'') = Some (exFile 200 exPendingCoding)" by code_simp
  have d2: "\<forall>h\<in>set [js ''a.md'', js ''b.md'']. endsWith h (js ''.md'')
            \<longrightarrow> (\<exists>nd c. files exTwoPending h = Some nd \<and> contents nd = Some c \<and> writable nd)"
    using fa fb by (simp add: exFile_simps)
  have e: "endsWith (js ''b.md'') (js ''.md'')" by code_simp
  note t = C7_unknown_status_and_scan_abort [where f="js ''a.md''" and w="exOne exNote"
      and nd="exFile 100 exNote" and content=exNote and agents="[]" and ?content2.0=exSpaced
      and ?w3.0=exBroken and before="[]" and g="js ''d.md''" and after="[js ''a.md'']"
      and ?tasks1.0="[]" and ?w1.0=exBroken and e=EISDIR
      and ?w4.0=exTwoPending and names="[js ''a.md'', js ''b.md'']"]
  from t [THEN conjunct1] a1 a2 a3 a4
  have r1: "processInbox_file [] (js ''a.md'') (exOne exNote) =
        Inr (Some \<lparr> task_id = js ''inbox-'' @ js ''a.md'',
                    task_title = processInbox_title (js ''a.md'') exNote,
                    task_status = js ''unknown'', task_updatedAt = \<lfloor>mtimeMs (exFile 100 exNote)\<rfloor> \<rparr>,
             exOne exNote)"
    by blast
  from t [THEN conjunct2, THEN conjunct1] b1
  have r2: "fst (route (typeOf exSpaced)) = js ''handyman''"
    by blast
  from t [THEN conjunct2, THEN conjunct2, THEN conjunct1] c1 c2 c3
  have r3: "processInbox [] exBroken = ([], exBroken)"
    by blast
  from t [THEN conjunct2, THEN conjunct2, THEN conjunct2] d1 d2
  have r4: "fst (processInbox_loop [] [js ''a.md'', js ''b.md''] [] exTwoPending) = None"
    and r5: "\<forall>h\<in>set [js ''a.md'', js ''b.md'']. endsWith h (js ''.md'')
              \<longrightarrow> (\<exists>t\<in>set (fst (processInbox [] exTwoPending)). task_id t = js ''inbox-'' @ h)"
    by blast+
  from r5 e have r6: "\<exists>t\<in>set (fst (processInbox [] exTwoPending)). task_id t = js ''inbox-'' @ js ''b.md''"
    by simp
  from a4 b1 r1 r2 c3 r3 r4 r6 show ?thesis
    by (intro conjI)
qed

end
